theory Spec2Isabelle
  imports Complex_Main
begin

section \<open>Hyperparameter optimisation orchestration (modules/hyperparams/optimisers.py)\<close>

subsection \<open>Python values, exceptions and log records\<close>

text \<open>
  A hyperparameter value is numeric or categorical. The Python values that reach the
  orchestrator are \<open>None\<close>, a \<open>dict\<close> of hyperparameters, or (from a corrupted store) a
  value of another type, represented by a string. \<open>isinstance(v, dict)\<close> is the
  discriminator \<open>isinstance_dict\<close>, \<open>v is None\<close> is \<open>is_None\<close>.
\<close>

datatype param_value = IntParam int | FloatParam real | CatParam string

datatype pyval =
    is_None: PyNone
  | is_str: PyStr string
  | isinstance_dict: PyDict "string \<rightharpoonup> param_value"

text \<open>
  The exceptions the code distinguishes by class. \<open>TimeoutError\<close>, \<open>ValueError\<close>,
  \<open>KeyError\<close> and \<open>RuntimeError\<close> derive from \<open>Exception\<close>; \<open>KeyboardInterrupt\<close> and
  \<open>SystemExit\<close> derive from \<open>BaseException\<close> only, so \<open>except Exception\<close> does not
  catch them.
\<close>

datatype exn =
    TimeoutError
  | ValueError string
  | KeyError string
  | RuntimeError string
  | KeyboardInterrupt
  | SystemExit

fun isinstance_TimeoutError :: "exn \<Rightarrow> bool" where
  "isinstance_TimeoutError TimeoutError = True"
| "isinstance_TimeoutError _ = False"


fun isinstance_Exception :: "exn \<Rightarrow> bool" where
  "isinstance_Exception KeyboardInterrupt = False"
| "isinstance_Exception SystemExit = False"
| "isinstance_Exception _ = True"

type_synonym 'a raising = "exn + 'a"

text \<open>
  One constructor per logging call of the module; the formatted fields of the f-strings
  are the constructor arguments.
\<close>

datatype log_record =
    Error_timed_out string
  | Error_generated_exception string exn
  | Warning_no_parameters string
  | Info_starting
  | Info_interrupted
  | Info_best_trial nat
  | Info_best_value real
  | Info_best_hyperparameters pyval

subsection \<open>Objectives, studies and the search\<close>

text \<open>
  The objective functions are opaque callables closed over the training data. A study
  optimised with an objective is described by how the call of \<open>study.optimize\<close> ends
  (it returns, or it raises) and by the best completed trial the study holds at that
  moment, if any trial has completed. \<open>study.best_trial\<close>, \<open>study.best_value\<close> and
  \<open>study.best_params\<close> raise \<open>ValueError\<close> when no trial has completed.
  The search is a parameter of the model: a function from the objective to the run of its
  study, for the data and the timeout of the call.
\<close>

datatype objective_fn =
    objective
  | objective_xgb
  | objective_rf
  | objective_stacking
  | objective_reg_stacking

datatype search_outcome = Finished | Raised exn

record trial =
  number :: nat
  trial_value :: real
  params :: pyval

record study_run =
  outcome :: search_outcome
  best :: "trial option"

datatype study_handle = Study

type_synonym search = "objective_fn \<Rightarrow> study_run"

definition no_trials_error :: exn where
  "no_trials_error = ValueError ''No trials are completed yet.''"

definition best_trial :: "study_run \<Rightarrow> trial raising" where
  "best_trial run = (case best run of None \<Rightarrow> Inl no_trials_error | Some t \<Rightarrow> Inr t)"

definition best_params :: "study_run \<Rightarrow> pyval raising" where
  "best_params run = (case best_trial run of Inl e \<Rightarrow> Inl e | Inr t \<Rightarrow> Inr (params t))"

subsection \<open>The state: Parameter Store, log and traces\<close>

text \<open>
  \<open>store\<close> is the Parameter Store, \<open>log\<close> the records written through \<open>logging\<close>,
  \<open>searched\<close> the objectives handed to \<open>study.optimize\<close> and \<open>saves\<close> the calls of
  \<open>save_hyperparameters\<close>, each in the order they happened.
\<close>

record state =
  store :: "string \<rightharpoonup> pyval"
  log :: "log_record list"
  searched :: "objective_fn list"
  saves :: "(string \<times> pyval) list"

definition logging :: "log_record \<Rightarrow> state \<Rightarrow> state" where
  "logging r st = st\<lparr>log := log st @ [r]\<rparr>"

text \<open>
  Modelled from the spec: \<open>modules/hyperparams/save_and_load.py\<close> is not among the
  sources. \<open>load_hyperparameters(model_id) -> Mapping|None\<close> reads the keyed record of
  the model, \<open>None\<close> when there is none; \<open>save_hyperparameters(params, model_id)\<close> writes
  the record.
\<close>

definition load_hyperparameters :: "string \<Rightarrow> state \<Rightarrow> pyval" where
  "load_hyperparameters name st = (case store st name of None \<Rightarrow> PyNone | Some v \<Rightarrow> v)"

definition save_hyperparameters :: "pyval \<Rightarrow> string \<Rightarrow> state \<Rightarrow> state" where
  "save_hyperparameters ps name st =
     st\<lparr>store := (store st)(name \<mapsto> ps), saves := saves st @ [(name, ps)]\<rparr>"

subsection \<open>create_study and optimize_model\<close>

definition create_study ::
  "string \<Rightarrow> objective_fn \<Rightarrow> state \<Rightarrow> study_handle option \<times> objective_fn option" where
  "create_study name obj st =
     (let saved_params = load_hyperparameters name st
      in if is_None saved_params then (Some Study, Some obj) else (None, None))"

text \<open>
  The handlers of the \<open>try\<close> in \<open>optimize_model\<close>, in the order of the source:
  \<open>except TimeoutError\<close>, then \<open>except Exception\<close>; any other exception propagates.
\<close>

definition except_handlers ::
  "string \<Rightarrow> exn \<Rightarrow> state \<Rightarrow> (string \<times> pyval) raising \<times> state" where
  "except_handlers name exc st =
     (if isinstance_TimeoutError exc then (Inr (name, PyNone), logging (Error_timed_out name) st)
      else if isinstance_Exception exc
        then (Inr (name, PyNone), logging (Error_generated_exception name exc) st)
      else (Inl exc, st))"

text \<open>
  Modelled from the spec: \<open>run_with_timeout\<close> of \<open>modules/utilities.py\<close> is not among
  the sources. It executes the work and returns when the work completes within the
  deadline, and fails with a timeout error otherwise; an exception of the work reaches
  the caller. Here the work is \<open>study.optimize\<close> on the objective, so the outcome of the
  guarded search is the \<open>outcome\<close> of the run, \<open>Raised TimeoutError\<close> at the deadline.
  \<open>study.best_params\<close> is read inside the \<open>try\<close>, so its \<open>ValueError\<close> goes through the
  handlers too.
\<close>

definition optimize_model ::
  "search \<Rightarrow> string \<times> objective_fn \<Rightarrow> state \<Rightarrow> (string \<times> pyval) raising \<times> state" where
  "optimize_model srch task st =
     (case task of (name, obj) \<Rightarrow>
        (case create_study name obj st of
           (Some study, Some func) \<Rightarrow>
             (let st1 = st\<lparr>searched := searched st @ [func]\<rparr>
              in case outcome (srch func) of
                   Finished \<Rightarrow>
                     (case best_params (srch func) of
                        Inr ps \<Rightarrow> (Inr (name, ps), st1)
                      | Inl exc \<Rightarrow> except_handlers name exc st1)
                 | Raised exc \<Rightarrow> except_handlers name exc st1)
         | _ \<Rightarrow> (Inr (name, load_hyperparameters name st), st)))"

subsection \<open>The worker pool\<close>

text \<open>
  \<open>executor.map\<close> submits every task at once; the four workers run them concurrently
  and finish in some order, the completion order. It is a parameter of the model: a list
  of task indices, completed by the tasks it leaves out (the pool runs every task exactly
  once). Each task runs atomically here. The results come back in submission order,
  whatever the completion order.
\<close>

definition completion_order :: "nat \<Rightarrow> nat list \<Rightarrow> nat list" where
  "completion_order n order =
     remdups (filter (\<lambda>i. i < n) order) @ filter (\<lambda>i. i \<notin> set order) [0..<n]"

fun run_tasks ::
  "('t \<Rightarrow> state \<Rightarrow> 'r \<times> state) \<Rightarrow> 't list \<Rightarrow> nat list \<Rightarrow> state \<Rightarrow> (nat \<times> 'r) list \<times> state" where
  "run_tasks f ts [] st = ([], st)"
| "run_tasks f ts (i # order) st =
     (case f (ts ! i) st of (r, st1) \<Rightarrow>
        (case run_tasks f ts order st1 of (rs, st2) \<Rightarrow> ((i, r) # rs, st2)))"

definition executor_map ::
  "('t \<Rightarrow> state \<Rightarrow> 'r \<times> state) \<Rightarrow> 't list \<Rightarrow> nat list \<Rightarrow> state \<Rightarrow> 'r list \<times> state" where
  "executor_map f ts order st =
     (case run_tasks f ts (completion_order (length ts) order) st of
        (rs, st1) \<Rightarrow> (map snd (sort_key fst rs), st1))"

text \<open>\<open>list(...)\<close> over the results re-raises the first exception a task raised.\<close>

fun collect :: "'a raising list \<Rightarrow> 'a list raising" where
  "collect [] = Inr []"
| "collect (Inl exc # rs) = Inl exc"
| "collect (Inr r # rs) = (case collect rs of Inl exc \<Rightarrow> Inl exc | Inr xs \<Rightarrow> Inr (r # xs))"

subsection \<open>optimize_hyperparameters\<close>

definition models_to_optimize :: "(string \<times> objective_fn) list" where
  "models_to_optimize =
     [(''xgb'', objective_xgb), (''rf'', objective_rf),
      (''stacking'', objective_stacking), (''reg_stacking'', objective_reg_stacking)]"

definition getitem :: "(string \<rightharpoonup> pyval) \<Rightarrow> string \<Rightarrow> pyval raising" where
  "getitem ps name = (case ps name of None \<Rightarrow> Inl (KeyError name) | Some v \<Rightarrow> Inr v)"

definition invalid_parameters :: "string \<Rightarrow> exn" where
  "invalid_parameters name = ValueError (''Invalid parameters for '' @ name @ ''.'')"

text \<open>The merge loop over the results (lines 98 to 108).\<close>

fun merge_results ::
  "(string \<times> pyval) list \<Rightarrow> (string \<rightharpoonup> pyval) \<Rightarrow> state \<Rightarrow> (string \<rightharpoonup> pyval) raising \<times> state" where
  "merge_results [] ps st = (Inr ps, st)"
| "merge_results ((name, bp) # results) ps st =
     (case (if \<not> is_None bp \<and> isinstance_dict bp
            then (ps(name \<mapsto> bp), save_hyperparameters bp name st)
            else (ps(name \<mapsto> load_hyperparameters name st), st)) of
        (ps1, st1) \<Rightarrow>
          (case getitem ps1 name of
             Inl exc \<Rightarrow> (Inl exc, st1)
           | Inr v \<Rightarrow>
               if \<not> isinstance_dict v then (Inl (invalid_parameters name), st1)
               else merge_results results ps1 st1))"

text \<open>The second loop, over the four expected names (lines 110 to 116).\<close>

fun ensure_loaded ::
  "string list \<Rightarrow> (string \<rightharpoonup> pyval) \<Rightarrow> state \<Rightarrow> (string \<rightharpoonup> pyval) raising \<times> state" where
  "ensure_loaded [] ps st = (Inr ps, st)"
| "ensure_loaded (name # names) ps st =
     (let ps1 = (if (case ps name of None \<Rightarrow> True | Some v \<Rightarrow> is_None v)
                 then ps(name \<mapsto> load_hyperparameters name st) else ps)
      in case getitem ps1 name of
           Inl exc \<Rightarrow> (Inl exc, st)
         | Inr v \<Rightarrow>
             if is_None v
             then ensure_loaded names (ps1(name \<mapsto> PyDict Map.empty))
                    (logging (Warning_no_parameters name) st)
             else ensure_loaded names ps1 st)"

definition result_tuple ::
  "(string \<rightharpoonup> pyval) \<Rightarrow> (pyval \<times> pyval \<times> pyval \<times> pyval) raising" where
  "result_tuple ps =
     (case getitem ps ''xgb'' of Inl exc \<Rightarrow> Inl exc | Inr xgb \<Rightarrow>
      (case getitem ps ''rf'' of Inl exc \<Rightarrow> Inl exc | Inr rf \<Rightarrow>
       (case getitem ps ''stacking'' of Inl exc \<Rightarrow> Inl exc | Inr stacking \<Rightarrow>
        (case getitem ps ''reg_stacking'' of Inl exc \<Rightarrow> Inl exc | Inr reg_stacking \<Rightarrow>
           Inr (xgb, rf, stacking, reg_stacking)))))"

definition optimize_hyperparameters ::
  "search \<Rightarrow> nat list \<Rightarrow> state \<Rightarrow> (pyval \<times> pyval \<times> pyval \<times> pyval) raising \<times> state" where
  "optimize_hyperparameters srch order st =
     (case executor_map (optimize_model srch) models_to_optimize order st of
        (task_results, st1) \<Rightarrow>
          (case collect task_results of
             Inl exc \<Rightarrow> (Inl exc, st1)
           | Inr results \<Rightarrow>
               (case merge_results results Map.empty st1 of
                  (Inl exc, st2) \<Rightarrow> (Inl exc, st2)
                | (Inr ps, st2) \<Rightarrow>
                    (case ensure_loaded [''xgb'', ''rf'', ''stacking'', ''reg_stacking''] ps st2 of
                       (Inl exc, st3) \<Rightarrow> (Inl exc, st3)
                     | (Inr ps', st3) \<Rightarrow> (result_tuple ps', st3)))))"

subsection \<open>optimize_hyperparameters_base\<close>



section \<open>Vocabulary of the properties\<close>

text \<open>
  The value the merge loop keeps for a model: the search result when it is a non-null
  dict, the store fallback otherwise.
\<close>

definition merged_value :: "pyval \<Rightarrow> pyval \<Rightarrow> pyval" where
  "merged_value bp cached = (if \<not> is_None bp \<and> isinstance_dict bp then bp else cached)"

text \<open>
  What a task hands to \<open>study.optimize\<close>: its objective when the store has no record
  of the model, nothing otherwise.
\<close>

definition new_searches :: "state \<Rightarrow> string \<times> objective_fn \<Rightarrow> objective_fn list" where
  "new_searches st task = (if is_None (load_hyperparameters (fst task) st) then [snd task] else [])"

definition not_mapping :: "state \<Rightarrow> string \<times> pyval \<Rightarrow> bool" where
  "not_mapping st r = (\<not> isinstance_dict (merged_value (snd r) (load_hyperparameters (fst r) st)))"

definition merged_entry :: "state \<Rightarrow> string \<times> pyval \<Rightarrow> string \<times> pyval" where
  "merged_entry st r = (fst r, merged_value (snd r) (load_hyperparameters (fst r) st))"

text \<open>
  The value a search yields: the parameters of the best trial when \<open>study.optimize\<close>
  returned and a trial has completed, \<open>None\<close> otherwise. \<open>model_result\<close> is what
  \<open>optimize_model\<close> pairs with the model name when it returns: the stored record when
  there is one, the value of the search otherwise. \<open>merged\<close> is the merged per-model
  value: search result or store fallback.
\<close>

definition search_params :: "study_run \<Rightarrow> pyval" where
  "search_params run =
     (case outcome run of
        Finished \<Rightarrow> (case best run of Some t \<Rightarrow> params t | None \<Rightarrow> PyNone)
      | Raised exc \<Rightarrow> PyNone)"

definition model_result :: "search \<Rightarrow> state \<Rightarrow> string \<times> objective_fn \<Rightarrow> pyval" where
  "model_result srch st task =
     (if is_None (load_hyperparameters (fst task) st) then search_params (srch (snd task))
      else load_hyperparameters (fst task) st)"

definition merged :: "search \<Rightarrow> state \<Rightarrow> string \<times> objective_fn \<Rightarrow> pyval" where
  "merged srch st task =
     merged_value (model_result srch st task) (load_hyperparameters (fst task) st)"

text \<open>
  The outcomes of a search that \<open>optimize_model\<close> turns into a returned pair: the search
  returns (success), it raises \<open>TimeoutError\<close> (timeout), or it raises another exception
  of class \<open>Exception\<close>. The tasks run on the worker threads of the pool, where no
  \<open>KeyboardInterrupt\<close> is delivered. A task returns when the store has a record of its
  model or its search has such an outcome.
\<close>

definition handled_outcome :: "study_run \<Rightarrow> bool" where
  "handled_outcome run =
     (case outcome run of Finished \<Rightarrow> True | Raised exc \<Rightarrow> isinstance_Exception exc)"

definition task_returns :: "search \<Rightarrow> state \<Rightarrow> string \<times> objective_fn \<Rightarrow> bool" where
  "task_returns srch st task =
     (is_None (load_hyperparameters (fst task) st) \<longrightarrow> handled_outcome (srch (snd task)))"

definition tasks_return :: "search \<Rightarrow> state \<Rightarrow> bool" where
  "tasks_return srch st = list_all (task_returns srch st) models_to_optimize"

text \<open>The entry of the returned tuple that belongs to a model name.\<close>

definition entry :: "string \<Rightarrow> pyval \<times> pyval \<times> pyval \<times> pyval \<Rightarrow> pyval" where
  "entry name tup =
     (case tup of (xgb, rf, stacking, reg_stacking) \<Rightarrow>
        if name = ''xgb'' then xgb else if name = ''rf'' then rf
        else if name = ''stacking'' then stacking else reg_stacking)"

definition returned_results :: "search \<Rightarrow> state \<Rightarrow> (string \<times> pyval) list" where
  "returned_results srch st =
     map (\<lambda>task. (fst task, model_result srch st task)) models_to_optimize"

text \<open>
  The first task, in submission order, whose merged value is not a dict, and the tuple of
  the four merged values.
\<close>

definition first_invalid :: "search \<Rightarrow> state \<Rightarrow> (string \<times> objective_fn) option" where
  "first_invalid srch st = find (\<lambda>task. \<not> isinstance_dict (merged srch st task)) models_to_optimize"

definition merged_tuple :: "search \<Rightarrow> state \<Rightarrow> pyval \<times> pyval \<times> pyval \<times> pyval" where
  "merged_tuple srch st =
     (merged srch st (''xgb'', objective_xgb), merged srch st (''rf'', objective_rf),
      merged srch st (''stacking'', objective_stacking),
      merged srch st (''reg_stacking'', objective_reg_stacking))"

definition stored_tuple :: "state \<Rightarrow> pyval \<times> pyval \<times> pyval \<times> pyval" where
  "stored_tuple st =
     (load_hyperparameters ''xgb'' st, load_hyperparameters ''rf'' st,
      load_hyperparameters ''stacking'' st, load_hyperparameters ''reg_stacking'' st)"

definition all_stored :: "state \<Rightarrow> bool" where
  "all_stored st = list_all (\<lambda>task. isinstance_dict (load_hyperparameters (fst task) st)) models_to_optimize"

definition failed :: study_run where
  "failed = \<lparr>outcome = Raised (RuntimeError ''fit did not converge''), best = None\<rparr>"

section \<open>Concrete inputs\<close>

text \<open>
  Parameter sets, a search that finds a given parameter set, one that times out, and one
  that the user interrupts after a trial has completed; the call in which every search
  succeeds, and the one in which only the search of \<open>xgb\<close> times out; a store without
  records, a store with a record for each model, and a store whose record of \<open>xgb\<close> is a
  string.
\<close>

definition tuned :: "int \<Rightarrow> pyval" where
  "tuned k = PyDict [''max_depth'' \<mapsto> IntParam k]"

definition finds :: "pyval \<Rightarrow> study_run" where
  "finds ps = \<lparr>outcome = Finished, best = Some \<lparr>number = 7, trial_value = 1 / 2, params = ps\<rparr>\<rparr>"

definition timed_out :: study_run where
  "timed_out = \<lparr>outcome = Raised TimeoutError, best = None\<rparr>"


definition all_succeed :: search where
  "all_succeed obj =
     (case obj of
        objective \<Rightarrow> finds (tuned 0)
      | objective_xgb \<Rightarrow> finds (tuned 1)
      | objective_rf \<Rightarrow> finds (tuned 2)
      | objective_stacking \<Rightarrow> finds (tuned 3)
      | objective_reg_stacking \<Rightarrow> finds (tuned 4))"

definition xgb_times_out :: search where
  "xgb_times_out = all_succeed(objective_xgb := timed_out)"


definition no_records :: state where
  "no_records = \<lparr>store = Map.empty, log = [], searched = [], saves = []\<rparr>"

definition populated :: state where
  "populated =
     \<lparr>store = [''xgb'' \<mapsto> tuned 11, ''rf'' \<mapsto> tuned 12,
               ''stacking'' \<mapsto> tuned 13, ''reg_stacking'' \<mapsto> tuned 14],
      log = [], searched = [], saves = []\<rparr>"

definition corrupted :: state where
  "corrupted =
     \<lparr>store = [''xgb'' \<mapsto> PyStr ''max_depth=6'', ''rf'' \<mapsto> tuned 12,
               ''stacking'' \<mapsto> tuned 13, ''reg_stacking'' \<mapsto> tuned 14],
      log = [], searched = [], saves = []\<rparr>"

section \<open>Auxiliary facts\<close>

lemma except_handlers_frame:
  "store (snd (except_handlers name exc st)) = store st"
  "saves (snd (except_handlers name exc st)) = saves st"
  "searched (snd (except_handlers name exc st)) = searched st"
  by (simp_all add: except_handlers_def logging_def)

lemma except_handlers_result:
  "fst (except_handlers name exc st) =
     (if isinstance_Exception exc then Inr (name, PyNone) else Inl exc)"
  by (cases exc) (simp_all add: except_handlers_def)

lemma optimize_model_store [simp]:
  "store (snd (optimize_model srch task st)) = store st"
  by (auto simp: optimize_model_def create_study_def Let_def except_handlers_frame
      split: prod.splits option.splits search_outcome.splits sum.splits)

lemma optimize_model_saves [simp]:
  "saves (snd (optimize_model srch task st)) = saves st"
  by (auto simp: optimize_model_def create_study_def Let_def except_handlers_frame
      split: prod.splits option.splits search_outcome.splits sum.splits)

lemma optimize_model_searched:
  "searched (snd (optimize_model srch (name, obj) st)) =
     searched st @ (if is_None (load_hyperparameters name st) then [obj] else [])"
  by (auto simp: optimize_model_def create_study_def Let_def except_handlers_frame
      split: prod.splits option.splits search_outcome.splits sum.splits)

lemma optimize_model_result_cong:
  "store st = store st' \<Longrightarrow> fst (optimize_model srch task st) = fst (optimize_model srch task st')"
  by (auto simp: optimize_model_def create_study_def Let_def except_handlers_result load_hyperparameters_def
      split: prod.splits option.splits search_outcome.splits sum.splits)

lemma run_tasks_Cons:
  "run_tasks f ts (i # order) st =
     ((i, fst (f (ts ! i) st)) # fst (run_tasks f ts order (snd (f (ts ! i) st))),
      snd (run_tasks f ts order (snd (f (ts ! i) st))))"
  by (simp split: prod.splits)

lemma executor_map_alt:
  "executor_map f ts order st =
     (map snd (sort_key fst (fst (run_tasks f ts (completion_order (length ts) order) st))),
      snd (run_tasks f ts (completion_order (length ts) order) st))"
  by (simp add: executor_map_def split: prod.splits)

lemma run_tasks_store [simp]:
  "store (snd (run_tasks (optimize_model srch) ts order st)) = store st"
  by (induction order arbitrary: st) (simp_all add: run_tasks_Cons del: run_tasks.simps(2))

lemma run_tasks_saves [simp]:
  "saves (snd (run_tasks (optimize_model srch) ts order st)) = saves st"
  by (induction order arbitrary: st) (simp_all add: run_tasks_Cons del: run_tasks.simps(2))

lemma run_tasks_results:
  "fst (run_tasks (optimize_model srch) ts order st) =
     map (\<lambda>i. (i, fst (optimize_model srch (ts ! i) st))) order"
proof (induction order arbitrary: st)
  case Nil
  show ?case by simp
next
  case (Cons i order)
  let ?st1 = "snd (optimize_model srch (ts ! i) st)"
  have same: "\<And>j. fst (optimize_model srch (ts ! j) ?st1) = fst (optimize_model srch (ts ! j) st)"
    by (rule optimize_model_result_cong) simp
  show ?case
    using Cons.IH [of ?st1] same by (simp add: run_tasks_Cons del: run_tasks.simps(2))
qed

lemma completion_order_distinct: "distinct (completion_order n order)"
  by (auto simp: completion_order_def)

lemma completion_order_set: "set (completion_order n order) = {0..<n}"
  by (auto simp: completion_order_def)

lemma sort_completion_order: "sort (completion_order n order) = [0..<n]"
proof -
  have "sort (completion_order n order) = sorted_list_of_set (set (completion_order n order))"
    by (simp add: sorted_list_of_set_sort_remdups distinct_remdups_id completion_order_distinct)
  then show ?thesis
    by (simp add: completion_order_set)
qed

lemma insort_key_tagged:
  "insort_key fst (i, g i) (map (\<lambda>j. (j, g j)) ys) = map (\<lambda>j. (j, g j)) (insort i ys)"
  by (induction ys) simp_all

lemma sort_key_tagged:
  "sort_key fst (map (\<lambda>j. (j, g j)) xs) = map (\<lambda>j. (j, g j)) (sort xs)"
  by (induction xs) (simp_all add: insort_key_tagged)

lemma executor_map_results:
  "fst (executor_map (optimize_model srch) ts order st) =
     map (\<lambda>task. fst (optimize_model srch task st)) ts"
proof -
  let ?g = "\<lambda>i. fst (optimize_model srch (ts ! i) st)"
  have "fst (executor_map (optimize_model srch) ts order st) =
          map snd (sort_key fst (map (\<lambda>i. (i, ?g i)) (completion_order (length ts) order)))"
    by (simp add: executor_map_alt run_tasks_results)
  also have "\<dots> = map ?g [0..<length ts]"
    by (simp add: sort_key_tagged sort_completion_order comp_def)
  also have "\<dots> = map (\<lambda>task. fst (optimize_model srch task st)) (map ((!) ts) [0..<length ts])"
    by (simp add: comp_def)
  also have "\<dots> = map (\<lambda>task. fst (optimize_model srch task st)) ts"
    by (simp only: map_nth)
  finally show ?thesis .
qed

lemma executor_map_store [simp]:
  "store (snd (executor_map (optimize_model srch) ts order st)) = store st"
  by (simp add: executor_map_alt)

lemma executor_map_saves [simp]:
  "saves (snd (executor_map (optimize_model srch) ts order st)) = saves st"
  by (simp add: executor_map_alt)

lemma optimize_model_searched':
  "searched (snd (optimize_model srch task st)) = searched st @ new_searches st task"
  by (cases task) (simp add: optimize_model_searched new_searches_def)

lemma new_searches_cong: "store st = store st' \<Longrightarrow> new_searches st task = new_searches st' task"
  by (simp add: new_searches_def load_hyperparameters_def)

lemma run_tasks_searched:
  "searched (snd (run_tasks (optimize_model srch) ts order st)) =
     searched st @ concat (map (\<lambda>i. new_searches st (ts ! i)) order)"
proof (induction order arbitrary: st)
  case Nil
  show ?case by simp
next
  case (Cons i order)
  let ?st1 = "snd (optimize_model srch (ts ! i) st)"
  have same: "\<And>j. new_searches ?st1 (ts ! j) = new_searches st (ts ! j)"
    by (rule new_searches_cong) simp
  show ?case
    using Cons.IH [of ?st1] same
    by (simp add: run_tasks_Cons optimize_model_searched' del: run_tasks.simps(2))
qed

lemma executor_map_searched:
  "set (searched (snd (executor_map (optimize_model srch) ts order st))) =
     set (searched st) \<union> (\<Union>task \<in> set ts. set (new_searches st task))"
proof -
  have "(\<Union>i \<in> set (completion_order (length ts) order). set (new_searches st (ts ! i))) =
        (\<Union>task \<in> set ts. set (new_searches st task))"
  proof -
    have "set ts = (!) ts ` {0..<length ts}"
      using nth_image [of "length ts" ts] by simp
    then have "(\<Union>task \<in> set ts. set (new_searches st task)) =
               (\<Union>i \<in> {0..<length ts}. set (new_searches st (ts ! i)))"
      by simp
    then show ?thesis
      by (simp add: completion_order_set)
  qed
  then show ?thesis
    by (simp add: executor_map_alt run_tasks_searched)
qed

lemma executor_map_no_searches:
  assumes "\<And>task. task \<in> set ts \<Longrightarrow> new_searches st task = []"
  shows "searched (snd (executor_map (optimize_model srch) ts order st)) = searched st"
proof -
  have "\<And>i. i \<in> set (completion_order (length ts) order) \<Longrightarrow> new_searches st (ts ! i) = []"
    using assms by (simp add: completion_order_set)
  then have "concat (map (\<lambda>i. new_searches st (ts ! i)) (completion_order (length ts) order)) = []"
    by simp
  then show ?thesis
    by (simp add: executor_map_alt run_tasks_searched)
qed

lemma load_after_save:
  "load_hyperparameters n (save_hyperparameters v name st) =
     (if n = name then v else load_hyperparameters n st)"
  by (simp add: load_hyperparameters_def save_hyperparameters_def)

lemma merge_results_Cons:
  "merge_results ((name, bp) # rs) ps st =
     (let v = merged_value bp (load_hyperparameters name st);
          st1 = (if \<not> is_None bp \<and> isinstance_dict bp then save_hyperparameters bp name st else st)
      in if \<not> isinstance_dict v then (Inl (invalid_parameters name), st1)
         else merge_results rs (ps(name \<mapsto> v)) st1)"
  by (simp add: merged_value_def getitem_def Let_def)

declare merge_results.simps(2) [simp del]

lemma merge_results_char:
  "distinct (map fst rs) \<Longrightarrow>
   fst (merge_results rs ps st) =
     (case find (not_mapping st) rs of
        Some r \<Rightarrow> Inl (invalid_parameters (fst r))
      | None \<Rightarrow> Inr (ps ++ map_of (map (merged_entry st) rs)))"
proof (induction rs arbitrary: ps st)
  case Nil
  show ?case by simp
next
  case (Cons r rs)
  obtain name bp where r: "r = (name, bp)" by (cases r)
  define st1 where
    "st1 = (if \<not> is_None bp \<and> isinstance_dict bp then save_hyperparameters bp name st else st)"
  define v where "v = merged_value bp (load_hyperparameters name st)"
  have fresh: "name \<notin> fst ` set rs" and dist: "distinct (map fst rs)"
    using Cons.prems r by auto
  have same: "\<And>x. x \<in> set rs \<Longrightarrow> load_hyperparameters (fst x) st1 = load_hyperparameters (fst x) st"
    using fresh by (auto simp: st1_def load_after_save)
  have f: "find (not_mapping st1) rs = find (not_mapping st) rs"
    by (rule find_cong) (simp_all add: not_mapping_def same)
  have m: "map (merged_entry st1) rs = map (merged_entry st) rs"
    by (rule map_cong) (simp_all add: merged_entry_def same)
  have nd: "name \<notin> dom (map_of (map (merged_entry st) rs))"
    using fresh by (auto simp: dom_map_of_conv_image_fst merged_entry_def image_iff)
  have step: "merge_results (r # rs) ps st =
      (if \<not> isinstance_dict v then (Inl (invalid_parameters name), st1)
       else merge_results rs (ps(name \<mapsto> v)) st1)"
    by (simp add: r merge_results_Cons Let_def v_def st1_def)
  show ?case
  proof (cases "isinstance_dict v")
    case False
    then show ?thesis
      by (simp add: step) (simp add: r not_mapping_def v_def)
  next
    case True
    have "fst (merge_results (r # rs) ps st) = fst (merge_results rs (ps(name \<mapsto> v)) st1)"
      using True by (simp add: step)
    also have "\<dots> = (case find (not_mapping st) rs of
        Some r \<Rightarrow> Inl (invalid_parameters (fst r))
      | None \<Rightarrow> Inr (ps(name \<mapsto> v) ++ map_of (map (merged_entry st) rs)))"
      by (simp only: Cons.IH [OF dist] f m)
    also have "ps(name \<mapsto> v) ++ map_of (map (merged_entry st) rs) =
               ps ++ map_of (map (merged_entry st) (r # rs))"
      using nd by (simp add: r merged_entry_def map_add_upd_left v_def)
    finally show ?thesis
      using True by (simp add: r not_mapping_def v_def)
  qed
qed

lemma optimize_model_result:
  "fst (optimize_model srch task st) =
     (if task_returns srch st task then Inr (fst task, model_result srch st task)
      else (case outcome (srch (snd task)) of Raised exc \<Rightarrow> Inl exc | Finished \<Rightarrow> Inl SystemExit))"
  by (cases task)
     (auto simp: optimize_model_def create_study_def Let_def except_handlers_result
        task_returns_def model_result_def handled_outcome_def search_params_def
        best_params_def best_trial_def no_trials_error_def
      split: option.splits search_outcome.splits sum.splits)

lemma collect_Inr: "collect (map Inr xs) = Inr xs"
  by (induction xs) simp_all

lemma ensure_loaded_id:
  "(\<And>n. n \<in> set names \<Longrightarrow> \<exists>v. ps n = Some v \<and> \<not> is_None v) \<Longrightarrow>
   ensure_loaded names ps st = (Inr ps, st)"
proof (induction names)
  case Nil
  show ?case by simp
next
  case (Cons n names)
  obtain v where "ps n = Some v" "\<not> is_None v"
    using Cons.prems [of n] by auto
  then show ?case
    using Cons by (simp add: getitem_def)
qed

lemma find_map_comp: "find P (map f xs) = map_option f (find (P \<circ> f) xs)"
  by (induction xs) simp_all

lemma load_cong: "store st = store st' \<Longrightarrow> load_hyperparameters n st = load_hyperparameters n st'"
  by (simp add: load_hyperparameters_def)

lemma not_mapping_cong: "store st = store st' \<Longrightarrow> not_mapping st = not_mapping st'"
  by (rule ext) (simp add: not_mapping_def load_hyperparameters_def)

lemma merged_entry_cong: "store st = store st' \<Longrightarrow> merged_entry st = merged_entry st'"
  by (rule ext) (simp add: merged_entry_def load_hyperparameters_def)

lemma dict_not_None: "isinstance_dict v \<Longrightarrow> \<not> is_None v"
  by (cases v) simp_all

lemma task_results_returned:
  assumes "tasks_return srch st"
  shows "fst (executor_map (optimize_model srch) models_to_optimize order st) =
           map Inr (map (\<lambda>task. (fst task, model_result srch st task)) models_to_optimize)"
  using assms
  by (simp add: executor_map_results tasks_return_def list_all_iff optimize_model_result)

lemma merge_after_tasks:
  assumes "store st1 = store st"
  shows "fst (merge_results (map (\<lambda>task. (fst task, model_result srch st task)) models_to_optimize)
                Map.empty st1) =
     (case find (\<lambda>task. \<not> isinstance_dict (merged srch st task)) models_to_optimize of
        Some task \<Rightarrow> Inl (invalid_parameters (fst task))
      | None \<Rightarrow> Inr (map_of (map (\<lambda>task. (fst task, merged srch st task)) models_to_optimize)))"
proof -
  let ?rs = "map (\<lambda>task. (fst task, model_result srch st task)) models_to_optimize"
  have d: "distinct (map fst ?rs)"
    by (simp add: models_to_optimize_def)
  have p: "not_mapping st1 \<circ> (\<lambda>task. (fst task, model_result srch st task)) =
           (\<lambda>task. \<not> isinstance_dict (merged srch st task))"
    by (rule ext) (simp add: not_mapping_def merged_def load_cong [OF assms])
  have m: "map (merged_entry st1) ?rs = map (\<lambda>task. (fst task, merged srch st task)) models_to_optimize"
    by (simp add: merged_entry_def merged_def load_cong [OF assms])
  show ?thesis
    unfolding merge_results_char [OF d] find_map_comp p m
    by (simp split: option.splits)
qed

lemma save_frame [simp]:
  "log (save_hyperparameters v n st) = log st"
  "searched (save_hyperparameters v n st) = searched st"
  by (simp_all add: save_hyperparameters_def)

lemma merge_results_log [simp]: "log (snd (merge_results rs ps st)) = log st"
  by (induction rs arbitrary: ps st) (auto simp: merge_results_Cons Let_def)

lemma merge_results_searched [simp]: "searched (snd (merge_results rs ps st)) = searched st"
  by (induction rs arbitrary: ps st) (auto simp: merge_results_Cons Let_def)

lemma merge_results_effects:
  "distinct (map fst rs) \<Longrightarrow> find (not_mapping st) rs = None \<Longrightarrow>
   saves (snd (merge_results rs ps st)) = saves st @ filter (\<lambda>r. isinstance_dict (snd r)) rs \<and>
   store (snd (merge_results rs ps st)) = store st ++ map_of (filter (\<lambda>r. isinstance_dict (snd r)) rs)"
proof (induction rs arbitrary: ps st)
  case Nil
  show ?case by simp
next
  case (Cons r rs)
  obtain name bp where r: "r = (name, bp)" by (cases r)
  define st1 where
    "st1 = (if \<not> is_None bp \<and> isinstance_dict bp then save_hyperparameters bp name st else st)"
  define v where "v = merged_value bp (load_hyperparameters name st)"
  have fresh: "name \<notin> fst ` set rs" and dist: "distinct (map fst rs)"
    using Cons.prems r by auto
  have same: "\<And>x. x \<in> set rs \<Longrightarrow> load_hyperparameters (fst x) st1 = load_hyperparameters (fst x) st"
    using fresh by (auto simp: st1_def load_after_save)
  have f: "find (not_mapping st1) rs = find (not_mapping st) rs"
    by (rule find_cong) (simp_all add: not_mapping_def same)
  have ok: "isinstance_dict v"
    using Cons.prems(2) by (auto simp: r not_mapping_def v_def split: if_splits)
  have rest: "find (not_mapping st) rs = None"
    using Cons.prems(2) by (simp split: if_splits)
  have step: "merge_results (r # rs) ps st = merge_results rs (ps(name \<mapsto> v)) st1"
    using ok by (simp add: r merge_results_Cons Let_def v_def st1_def)
  have nd: "name \<notin> dom (map_of (filter (\<lambda>r. isinstance_dict (snd r)) rs))"
    using fresh by (auto simp: dom_map_of_conv_image_fst image_iff)
  have IH: "saves (snd (merge_results rs (ps(name \<mapsto> v)) st1)) =
              saves st1 @ filter (\<lambda>r. isinstance_dict (snd r)) rs \<and>
            store (snd (merge_results rs (ps(name \<mapsto> v)) st1)) =
              store st1 ++ map_of (filter (\<lambda>r. isinstance_dict (snd r)) rs)"
  proof -
    have "find (not_mapping st1) rs = None"
      using f rest by simp
    from Cons.IH [OF dist this] show ?thesis .
  qed
  show ?case
  proof (cases "isinstance_dict bp")
    case True
    then have st1: "st1 = save_hyperparameters bp name st"
      by (simp add: st1_def dict_not_None)
    have A: "saves st1 = saves st @ [r]" "store st1 = (store st)(name \<mapsto> bp)"
      by (simp_all add: st1 r save_hyperparameters_def)
    have B: "filter (\<lambda>r. isinstance_dict (snd r)) (r # rs) = r # filter (\<lambda>r. isinstance_dict (snd r)) rs"
      using True by (simp add: r)
    have C: "store st1 ++ map_of (filter (\<lambda>r. isinstance_dict (snd r)) rs) =
             store st ++ map_of (filter (\<lambda>r. isinstance_dict (snd r)) (r # rs))"
      unfolding B A using nd by (auto simp: map_add_def r fun_eq_iff split: option.splits)
    show ?thesis
      unfolding step
    proof (intro conjI)
      show "saves (snd (merge_results rs (ps(name \<mapsto> v)) st1)) =
            saves st @ filter (\<lambda>r. isinstance_dict (snd r)) (r # rs)"
        unfolding B using IH by (simp add: A(1))
      show "store (snd (merge_results rs (ps(name \<mapsto> v)) st1)) =
            store st ++ map_of (filter (\<lambda>r. isinstance_dict (snd r)) (r # rs))"
        using IH C by (simp only:)
    qed
  next
    case False
    then have "st1 = st" by (simp add: st1_def)
    then show ?thesis
      unfolding step using IH False by (simp add: r)
  qed
qed

lemma first_invalid_None:
  "first_invalid srch st = None \<longleftrightarrow>
     (isinstance_dict (merged srch st (''xgb'', objective_xgb)) \<and>
      isinstance_dict (merged srch st (''rf'', objective_rf)) \<and>
      isinstance_dict (merged srch st (''stacking'', objective_stacking)) \<and>
      isinstance_dict (merged srch st (''reg_stacking'', objective_reg_stacking)))"
  by (simp add: first_invalid_def models_to_optimize_def)

lemma merged_map_lookup:
  "map_of (map (\<lambda>task. (fst task, merged srch st task)) models_to_optimize) ''xgb'' =
     Some (merged srch st (''xgb'', objective_xgb))"
  "map_of (map (\<lambda>task. (fst task, merged srch st task)) models_to_optimize) ''rf'' =
     Some (merged srch st (''rf'', objective_rf))"
  "map_of (map (\<lambda>task. (fst task, merged srch st task)) models_to_optimize) ''stacking'' =
     Some (merged srch st (''stacking'', objective_stacking))"
  "map_of (map (\<lambda>task. (fst task, merged srch st task)) models_to_optimize) ''reg_stacking'' =
     Some (merged srch st (''reg_stacking'', objective_reg_stacking))"
  by (simp_all add: models_to_optimize_def)

lemma merged_map_tuple:
  "result_tuple (map_of (map (\<lambda>task. (fst task, merged srch st task)) models_to_optimize)) =
     Inr (merged_tuple srch st)"
  by (simp add: result_tuple_def getitem_def merged_map_lookup merged_tuple_def)

lemma merged_map_ensure:
  assumes "first_invalid srch st = None"
  shows "ensure_loaded [''xgb'', ''rf'', ''stacking'', ''reg_stacking'']
           (map_of (map (\<lambda>task. (fst task, merged srch st task)) models_to_optimize)) st' =
         (Inr (map_of (map (\<lambda>task. (fst task, merged srch st task)) models_to_optimize)), st')"
proof (rule ensure_loaded_id)
  fix n assume "n \<in> set [''xgb'', ''rf'', ''stacking'', ''reg_stacking'']"
  then consider "n = ''xgb''" | "n = ''rf''" | "n = ''stacking''" | "n = ''reg_stacking''"
    by auto
  then show "\<exists>v. map_of (map (\<lambda>task. (fst task, merged srch st task)) models_to_optimize) n = Some v
        \<and> \<not> is_None v"
    using assms by cases (simp_all add: merged_map_lookup first_invalid_None dict_not_None)
qed

lemma optimize_hyperparameters_alt:
  "optimize_hyperparameters srch order st =
     (let ex = executor_map (optimize_model srch) models_to_optimize order st
      in case collect (fst ex) of
           Inl exc \<Rightarrow> (Inl exc, snd ex)
         | Inr results \<Rightarrow>
             (let m = merge_results results Map.empty (snd ex)
              in case fst m of
                   Inl exc \<Rightarrow> (Inl exc, snd m)
                 | Inr ps \<Rightarrow>
                     (let e = ensure_loaded [''xgb'', ''rf'', ''stacking'', ''reg_stacking''] ps (snd m)
                      in case fst e of
                           Inl exc \<Rightarrow> (Inl exc, snd e)
                         | Inr ps' \<Rightarrow> (result_tuple ps', snd e))))"
proof -
  obtain trs st1 where ex: "executor_map (optimize_model srch) models_to_optimize order st = (trs, st1)"
    by force
  show ?thesis
  proof (cases "collect trs")
    case (Inl exc)
    then show ?thesis
      by (simp add: optimize_hyperparameters_def ex)
  next
    case (Inr results)
    obtain m st2 where mr: "merge_results results Map.empty st1 = (m, st2)"
      by force
    show ?thesis
    proof (cases m)
      case (Inl exc)
      then show ?thesis
        by (simp add: optimize_hyperparameters_def ex Inr mr)
    next
      case m: (Inr ps)
      obtain e st3 where el:
        "ensure_loaded [''xgb'', ''rf'', ''stacking'', ''reg_stacking''] ps st2 = (e, st3)"
        by force
      show ?thesis
        by (cases e) (simp_all add: optimize_hyperparameters_def ex Inr mr m el del: ensure_loaded.simps)
    qed
  qed
qed

lemma optimize_hyperparameters_returned:
  assumes "tasks_return srch st"
  shows "fst (optimize_hyperparameters srch order st) =
     (case first_invalid srch st of
        Some task \<Rightarrow> Inl (invalid_parameters (fst task))
      | None \<Rightarrow> Inr (merged_tuple srch st))"
proof -
  let ?ex = "executor_map (optimize_model srch) models_to_optimize order st"
  let ?rs = "map (\<lambda>task. (fst task, model_result srch st task)) models_to_optimize"
  let ?ps = "map_of (map (\<lambda>task. (fst task, merged srch st task)) models_to_optimize)"
  have c: "collect (fst ?ex) = Inr ?rs"
    by (simp only: task_results_returned [OF assms] collect_Inr)
  have s: "store (snd ?ex) = store st" by simp
  note m = merge_after_tasks [OF s, of srch, folded first_invalid_def]
  have o: "optimize_hyperparameters srch order st =
      (let m = merge_results ?rs Map.empty (snd ?ex)
       in case fst m of
            Inl exc \<Rightarrow> (Inl exc, snd m)
          | Inr ps \<Rightarrow>
              (let e = ensure_loaded [''xgb'', ''rf'', ''stacking'', ''reg_stacking''] ps (snd m)
               in case fst e of
                    Inl exc \<Rightarrow> (Inl exc, snd e)
                  | Inr ps' \<Rightarrow> (result_tuple ps', snd e)))"
    unfolding optimize_hyperparameters_alt Let_def c by simp
  show ?thesis
  proof (cases "first_invalid srch st")
    case (Some task)
    then show ?thesis
      unfolding o Let_def m by simp
  next
    case None
    show ?thesis
      unfolding o Let_def m None
      by (simp add: merged_map_ensure [OF None] merged_map_tuple del: ensure_loaded.simps)
  qed
qed

lemma handled_tasks_return:
  "\<forall>task \<in> set models_to_optimize. handled_outcome (srch (snd task)) \<Longrightarrow> tasks_return srch st"
  by (simp add: tasks_return_def task_returns_def list_all_iff)

lemma first_invalid_Some:
  "first_invalid srch st = Some task \<Longrightarrow>
     task \<in> set models_to_optimize \<and> \<not> isinstance_dict (merged srch st task)"
  unfolding first_invalid_def by (auto simp: find_Some_iff)

lemma handled_finds [simp]: "handled_outcome (finds ps)"
  by (simp add: handled_outcome_def finds_def)

lemma handled_timed_out [simp]: "handled_outcome timed_out"
  by (simp add: handled_outcome_def timed_out_def)


lemma collect_Inr_D: "collect rs = Inr xs \<Longrightarrow> rs = map Inr xs"
proof (induction rs arbitrary: xs)
  case Nil
  then show ?case by simp
next
  case (Cons r rs)
  show ?case
  proof (cases r)
    case (Inl exc)
    then show ?thesis using Cons.prems by simp
  next
    case r: (Inr x)
    show ?thesis
    proof (cases "collect rs")
      case (Inl exc)
      then show ?thesis using Cons.prems r by simp
    next
      case (Inr ys)
      then have "xs = x # ys" using Cons.prems r by simp
      moreover have "rs = map Inr ys" by (rule Cons.IH [OF Inr])
      ultimately show ?thesis using r by simp
    qed
  qed
qed

lemma task_result_Inr:
  "fst (optimize_model srch task st) = Inr r \<Longrightarrow>
     task_returns srch st task \<and> r = (fst task, model_result srch st task)"
  by (simp add: optimize_model_result split: if_splits search_outcome.splits)

lemma collect_tasks_Inr:
  assumes "collect (map (\<lambda>task. fst (optimize_model srch task st)) models_to_optimize) = Inr rs"
  shows "tasks_return srch st"
proof -
  have eq: "map (\<lambda>task. fst (optimize_model srch task st)) models_to_optimize = map Inr rs"
    using assms by (rule collect_Inr_D)
  have "task_returns srch st task" if "task \<in> set models_to_optimize" for task
  proof -
    have "fst (optimize_model srch task st) \<in>
            set (map (\<lambda>task. fst (optimize_model srch task st)) models_to_optimize)"
      using that by simp
    then have "fst (optimize_model srch task st) \<in> set (map Inr rs)"
      by (simp only: eq)
    then obtain r where "fst (optimize_model srch task st) = Inr r"
      by auto
    then show ?thesis
      by (simp add: task_result_Inr)
  qed
  then show ?thesis
    by (simp add: tasks_return_def list_all_iff)
qed

lemma optimize_hyperparameters_result:
  "fst (optimize_hyperparameters srch order st) =
     (case collect (map (\<lambda>task. fst (optimize_model srch task st)) models_to_optimize) of
        Inl exc \<Rightarrow> Inl exc
      | Inr rs \<Rightarrow>
          (case first_invalid srch st of
             Some task \<Rightarrow> Inl (invalid_parameters (fst task))
           | None \<Rightarrow> Inr (merged_tuple srch st)))"
proof (cases "collect (map (\<lambda>task. fst (optimize_model srch task st)) models_to_optimize)")
  case (Inl exc)
  then show ?thesis
    by (simp add: optimize_hyperparameters_alt executor_map_results Let_def)
next
  case (Inr rs)
  then show ?thesis
    by (simp add: optimize_hyperparameters_returned [OF collect_tasks_Inr [OF Inr]])
qed

lemma returned_tasks_return:
  "fst (optimize_hyperparameters srch order st) = Inr tup \<Longrightarrow>
     tasks_return srch st \<and> first_invalid srch st = None \<and> tup = merged_tuple srch st"
  by (auto simp: optimize_hyperparameters_result collect_tasks_Inr split: sum.splits option.splits)

lemma ensure_loaded_frame:
  "store (snd (ensure_loaded names ps st)) = store st"
  "saves (snd (ensure_loaded names ps st)) = saves st"
  "searched (snd (ensure_loaded names ps st)) = searched st"
  by (induction names arbitrary: ps st)
     (auto simp: Let_def logging_def split: sum.splits)

lemma optimize_hyperparameters_searched:
  "searched (snd (optimize_hyperparameters srch order st)) =
     searched (snd (executor_map (optimize_model srch) models_to_optimize order st))"
  by (simp add: optimize_hyperparameters_alt Let_def ensure_loaded_frame
      split: sum.splits del: ensure_loaded.simps)

lemmas eval_defs =
  models_to_optimize_def optimize_model_result task_returns_def handled_outcome_def
  model_result_def load_hyperparameters_def search_params_def first_invalid_def
  merged_def merged_value_def merged_tuple_def
  all_succeed_def xgb_times_out_def finds_def timed_out_def tuned_def
  no_records_def populated_def corrupted_def

lemma models_distinct_objectives:
  "(name, obj) \<in> set models_to_optimize \<Longrightarrow> (name', obj) \<in> set models_to_optimize \<Longrightarrow> name' = name"
  by (auto simp: models_to_optimize_def)

lemma entry_merged_tuple:
  "task \<in> set models_to_optimize \<Longrightarrow> entry (fst task) (merged_tuple srch st) = merged srch st task"
  by (auto simp: models_to_optimize_def entry_def merged_tuple_def)

lemma merged_cached:
  "isinstance_dict (load_hyperparameters (fst task) st) \<Longrightarrow>
     merged srch st task = load_hyperparameters (fst task) st"
  by (simp add: merged_def merged_value_def model_result_def dict_not_None)

lemma find_not_mapping_returned:
  assumes "store st1 = store st"
  shows "find (not_mapping st1) (returned_results srch st) =
           map_option (\<lambda>task. (fst task, model_result srch st task)) (first_invalid srch st)"
proof -
  have p: "not_mapping st1 \<circ> (\<lambda>task. (fst task, model_result srch st task)) =
           (\<lambda>task. \<not> isinstance_dict (merged srch st task))"
    by (rule ext) (simp add: not_mapping_def merged_def load_cong [OF assms])
  show ?thesis
    by (simp only: returned_results_def find_map_comp p first_invalid_def)
qed

lemma returned_results_distinct: "distinct (map fst (returned_results srch st))"
  by (simp add: returned_results_def models_to_optimize_def)

lemma optimize_hyperparameters_state:
  assumes "tasks_return srch st" and "first_invalid srch st = None"
  shows "snd (optimize_hyperparameters srch order st) =
           snd (merge_results (returned_results srch st) Map.empty
                  (snd (executor_map (optimize_model srch) models_to_optimize order st)))"
proof -
  let ?ex = "executor_map (optimize_model srch) models_to_optimize order st"
  have c: "collect (fst ?ex) = Inr (returned_results srch st)"
    by (simp only: task_results_returned [OF assms(1)] collect_Inr returned_results_def)
  have s: "store (snd ?ex) = store st" by simp
  have m: "fst (merge_results (returned_results srch st) Map.empty (snd ?ex)) =
        Inr (map_of (map (\<lambda>task. (fst task, merged srch st task)) models_to_optimize))"
    using merge_after_tasks [OF s, of srch] assms(2)
    by (simp add: returned_results_def first_invalid_def)
  show ?thesis
    unfolding optimize_hyperparameters_alt Let_def c
    by (simp add: m merged_map_ensure [OF assms(2)] merged_map_tuple del: ensure_loaded.simps)
qed

lemma optimize_hyperparameters_effects:
  assumes "tasks_return srch st" and "first_invalid srch st = None"
  shows "saves (snd (optimize_hyperparameters srch order st)) =
           saves st @ filter (\<lambda>r. isinstance_dict (snd r)) (returned_results srch st)"
    and "store (snd (optimize_hyperparameters srch order st)) =
           store st ++ map_of (filter (\<lambda>r. isinstance_dict (snd r)) (returned_results srch st))"
proof -
  let ?ex = "executor_map (optimize_model srch) models_to_optimize order st"
  have s: "store (snd ?ex) = store st" by simp
  have f: "find (not_mapping (snd ?ex)) (returned_results srch st) = None"
    by (simp add: find_not_mapping_returned [OF s] assms(2))
  note e = merge_results_effects [OF returned_results_distinct f, of Map.empty]
  show "saves (snd (optimize_hyperparameters srch order st)) =
           saves st @ filter (\<lambda>r. isinstance_dict (snd r)) (returned_results srch st)"
    using e by (simp add: optimize_hyperparameters_state [OF assms])
  show "store (snd (optimize_hyperparameters srch order st)) =
           store st ++ map_of (filter (\<lambda>r. isinstance_dict (snd r)) (returned_results srch st))"
    using e by (simp add: optimize_hyperparameters_state [OF assms])
qed

lemma all_stored_call:
  assumes "all_stored st"
  shows "fst (optimize_hyperparameters srch order st) = Inr (stored_tuple st)"
    and "searched (snd (optimize_hyperparameters srch order st)) = searched st"
    and "load_hyperparameters n (snd (optimize_hyperparameters srch order st)) = load_hyperparameters n st"
    and "saves (snd (optimize_hyperparameters srch order st)) =
           saves st @ map (\<lambda>task. (fst task, load_hyperparameters (fst task) st)) models_to_optimize"
proof -
  have d: "isinstance_dict (load_hyperparameters (fst task) st)" if "task \<in> set models_to_optimize" for task
    using assms that by (simp add: all_stored_def list_all_iff)
  have tr: "tasks_return srch st"
    using d by (simp add: tasks_return_def task_returns_def list_all_iff dict_not_None)
  have mg: "merged srch st task = load_hyperparameters (fst task) st" if "task \<in> set models_to_optimize" for task
    using d [OF that] by (rule merged_cached)
  have fi: "first_invalid srch st = None"
    using d mg by (fastforce simp: first_invalid_def find_None_iff)
  have mt: "merged_tuple srch st = stored_tuple st"
    using mg by (simp add: merged_tuple_def stored_tuple_def models_to_optimize_def)
  show "fst (optimize_hyperparameters srch order st) = Inr (stored_tuple st)"
    by (simp add: optimize_hyperparameters_returned [OF tr] fi mt)
  have "new_searches st task = []" if "task \<in> set models_to_optimize" for task
    using d [OF that] by (simp add: new_searches_def dict_not_None)
  then show "searched (snd (optimize_hyperparameters srch order st)) = searched st"
    by (simp add: optimize_hyperparameters_searched executor_map_no_searches)
  have rr: "returned_results srch st =
            map (\<lambda>task. (fst task, load_hyperparameters (fst task) st)) models_to_optimize"
    unfolding returned_results_def
    by (rule map_cong) (simp_all add: model_result_def d dict_not_None)
  have fl: "filter (\<lambda>r. isinstance_dict (snd r))
              (map (\<lambda>task. (fst task, load_hyperparameters (fst task) st)) models_to_optimize) =
            map (\<lambda>task. (fst task, load_hyperparameters (fst task) st)) models_to_optimize"
    using d by (simp add: filter_id_conv)
  show "saves (snd (optimize_hyperparameters srch order st)) =
           saves st @ map (\<lambda>task. (fst task, load_hyperparameters (fst task) st)) models_to_optimize"
    by (simp only: optimize_hyperparameters_effects(1) [OF tr fi] rr fl)
  have st: "store (snd (optimize_hyperparameters srch order st)) =
            store st ++ map_of (map (\<lambda>task. (fst task, load_hyperparameters (fst task) st)) models_to_optimize)"
    by (simp only: optimize_hyperparameters_effects(2) [OF tr fi] rr fl)
  show "load_hyperparameters n (snd (optimize_hyperparameters srch order st)) = load_hyperparameters n st"
    unfolding load_hyperparameters_def [of n "snd (optimize_hyperparameters srch order st)"] st
    by (simp add: models_to_optimize_def map_add_def load_hyperparameters_def split: option.splits)
qed

lemma first_invalid_None_iff:
  "first_invalid srch st = None \<longleftrightarrow>
     (\<forall>task \<in> set models_to_optimize. isinstance_dict (merged srch st task))"
  by (auto simp: first_invalid_def find_None_iff)

lemma merged_of_dict_result:
  "isinstance_dict (model_result srch st task) \<Longrightarrow> merged srch st task = model_result srch st task"
  by (simp add: merged_def merged_value_def dict_not_None)

lemma saved_results_lookup:
  assumes "task \<in> set models_to_optimize" and "isinstance_dict (model_result srch st task)"
  shows "map_of (filter (\<lambda>r. isinstance_dict (snd r)) (returned_results srch st)) (fst task) =
           Some (model_result srch st task)"
proof (rule map_of_is_SomeI)
  show "distinct (map fst (filter (\<lambda>r. isinstance_dict (snd r)) (returned_results srch st)))"
    by (rule distinct_map_filter) (rule returned_results_distinct)
  show "(fst task, model_result srch st task) \<in>
          set (filter (\<lambda>r. isinstance_dict (snd r)) (returned_results srch st))"
    using assms by (auto simp: returned_results_def)
qed

lemma returned_store:
  assumes "tasks_return srch st" and "first_invalid srch st = None"
    and "task \<in> set models_to_optimize" and "isinstance_dict (model_result srch st task)"
  shows "store (snd (optimize_hyperparameters srch order st)) (fst task) =
           Some (model_result srch st task)"
  by (simp add: optimize_hyperparameters_effects(2) [OF assms(1,2)] map_add_def
      saved_results_lookup [OF assms(3,4)])

lemma merge_results_saves_prefix:
  "\<exists>more. saves (snd (merge_results rs ps st)) = saves st @ more"
proof (induction rs arbitrary: ps st)
  case Nil
  show ?case by simp
next
  case (Cons r rs)
  obtain name bp where r: "r = (name, bp)" by (cases r)
  define st1 where
    "st1 = (if \<not> is_None bp \<and> isinstance_dict bp then save_hyperparameters bp name st else st)"
  define v where "v = merged_value bp (load_hyperparameters name st)"
  have p: "\<exists>more. saves st1 = saves st @ more"
    by (simp add: st1_def save_hyperparameters_def)
  have step: "merge_results (r # rs) ps st =
      (if \<not> isinstance_dict v then (Inl (invalid_parameters name), st1)
       else merge_results rs (ps(name \<mapsto> v)) st1)"
    by (simp add: r merge_results_Cons Let_def v_def st1_def)
  show ?case
  proof (cases "isinstance_dict v")
    case False
    then show ?thesis using p by (simp add: step)
  next
    case True
    obtain m1 where m1: "saves st1 = saves st @ m1" using p by blast
    obtain m2 where m2: "saves (snd (merge_results rs (ps(name \<mapsto> v)) st1)) = saves st1 @ m2"
      using Cons.IH by blast
    show ?thesis
      using True by (simp add: step m1 m2)
  qed
qed

lemma optimize_model_no_warning:
  "Warning_no_parameters n \<in> set (log (snd (optimize_model srch task st))) \<Longrightarrow>
     Warning_no_parameters n \<in> set (log st)"
  by (auto simp: optimize_model_def create_study_def Let_def except_handlers_def logging_def
      split: prod.splits option.splits search_outcome.splits sum.splits if_splits)

lemma run_tasks_no_warning:
  "Warning_no_parameters n \<in> set (log (snd (run_tasks (optimize_model srch) ts order st))) \<Longrightarrow>
     Warning_no_parameters n \<in> set (log st)"
proof (induction order arbitrary: st)
  case Nil
  then show ?case by simp
next
  case (Cons i order)
  then show ?case
    by (auto simp: run_tasks_Cons simp del: run_tasks.simps(2) dest: optimize_model_no_warning)
qed

lemma executor_map_no_warning:
  "Warning_no_parameters n \<in> set (log (snd (executor_map (optimize_model srch) ts order st))) \<Longrightarrow>
     Warning_no_parameters n \<in> set (log st)"
  by (auto simp: executor_map_alt dest: run_tasks_no_warning)

lemma optimize_hyperparameters_invalid_log:
  assumes "tasks_return srch st" and "first_invalid srch st = Some bad"
  shows "log (snd (optimize_hyperparameters srch order st)) =
           log (snd (executor_map (optimize_model srch) models_to_optimize order st))"
proof -
  let ?ex = "executor_map (optimize_model srch) models_to_optimize order st"
  have c: "collect (fst ?ex) = Inr (returned_results srch st)"
    by (simp only: task_results_returned [OF assms(1)] collect_Inr returned_results_def)
  have s: "store (snd ?ex) = store st" by simp
  have m: "fst (merge_results (returned_results srch st) Map.empty (snd ?ex)) =
        Inl (invalid_parameters (fst bad))"
    using merge_after_tasks [OF s, of srch] assms(2)
    by (simp add: returned_results_def first_invalid_def)
  show ?thesis
    unfolding optimize_hyperparameters_alt Let_def c
    by (simp add: m del: ensure_loaded.simps)
qed

section \<open>The claims\<close>



text \<open>
  C8. Whatever the completion order of the four tasks, \<open>executor.map\<close> hands their
  results back in submission order, so the outcome of the call does not depend on the
  completion order, and a returned tuple holds, in the fixed order \<open>xgb\<close>, \<open>rf\<close>,
  \<open>stacking\<close>, \<open>reg_stacking\<close>, the merged value of each model under its own name.
\<close>

theorem results_follow_submission_order:
  "fst (executor_map (optimize_model srch) models_to_optimize order st) =
     map (\<lambda>task. fst (optimize_model srch task st)) models_to_optimize \<and>
   fst (optimize_hyperparameters srch order st) = fst (optimize_hyperparameters srch order' st) \<and>
   (\<forall>tup. fst (optimize_hyperparameters srch order st) = Inr tup \<longrightarrow>
      tup = (merged srch st (''xgb'', objective_xgb), merged srch st (''rf'', objective_rf),
             merged srch st (''stacking'', objective_stacking),
             merged srch st (''reg_stacking'', objective_reg_stacking)))"
proof (intro conjI allI impI)
  show "fst (executor_map (optimize_model srch) models_to_optimize order st) =
     map (\<lambda>task. fst (optimize_model srch task st)) models_to_optimize"
    by (rule executor_map_results)
  show "fst (optimize_hyperparameters srch order st) = fst (optimize_hyperparameters srch order' st)"
    by (simp only: optimize_hyperparameters_result)
  fix tup
  assume "fst (optimize_hyperparameters srch order st) = Inr tup"
  then show "tup = (merged srch st (''xgb'', objective_xgb), merged srch st (''rf'', objective_rf),
             merged srch st (''stacking'', objective_stacking),
             merged srch st (''reg_stacking'', objective_reg_stacking))"
    using returned_tasks_return [of srch order st tup] by (simp add: merged_tuple_def)
qed

theorem results_follow_submission_order_witness:
  "fst (optimize_hyperparameters all_succeed [3, 1, 0, 2] no_records) =
     Inr (tuned 1, tuned 2, tuned 3, tuned 4) \<and>
   fst (optimize_hyperparameters all_succeed [3, 1, 0, 2] no_records) =
     fst (optimize_hyperparameters all_succeed [] no_records) \<and>
   (tuned 1, tuned 2, tuned 3, tuned 4) =
     (merged all_succeed no_records (''xgb'', objective_xgb),
      merged all_succeed no_records (''rf'', objective_rf),
      merged all_succeed no_records (''stacking'', objective_stacking),
      merged all_succeed no_records (''reg_stacking'', objective_reg_stacking))"
proof -
  have r: "fst (optimize_hyperparameters all_succeed [3, 1, 0, 2] no_records) =
             Inr (tuned 1, tuned 2, tuned 3, tuned 4)"
    by (simp add: optimize_hyperparameters_result eval_defs)
  note t = results_follow_submission_order [of all_succeed "[3, 1, 0, 2]" no_records "[]"]
  have e: "fst (optimize_hyperparameters all_succeed [3, 1, 0, 2] no_records) =
           fst (optimize_hyperparameters all_succeed [] no_records)"
    using t by blast
  have m: "(tuned 1, tuned 2, tuned 3, tuned 4) =
     (merged all_succeed no_records (''xgb'', objective_xgb),
      merged all_succeed no_records (''rf'', objective_rf),
      merged all_succeed no_records (''stacking'', objective_stacking),
      merged all_succeed no_records (''reg_stacking'', objective_reg_stacking))"
    using t r by blast
  show ?thesis
    by (intro conjI) (rule r, rule e, rule m)
qed

text \<open>
C3. When \<open>load_hyperparameters\<close> returns a stored dict for a model, a call of
  \<open>optimize_hyperparameters\<close> hands the objective of that model to no study (its task
  leaves the state as it was: no study is created, nothing is searched), whatever the
  other tasks do, and when the call returns, the entry of the tuple for that model is
  the stored dict.
\<close>

theorem cached_model_not_searched:
  assumes "(name, obj) \<in> set models_to_optimize"
    and "load_hyperparameters name st = PyDict d"
  shows "(\<exists>new. searched (snd (optimize_hyperparameters srch order st)) = searched st @ new \<and>
            obj \<notin> set new) \<and>
         snd (optimize_model srch (name, obj) st) = st \<and>
         (\<forall>tup. fst (optimize_hyperparameters srch order st) = Inr tup \<longrightarrow>
            entry name tup = PyDict d)"
proof (intro conjI allI impI)
  let ?new = "concat (map (\<lambda>i. new_searches st (models_to_optimize ! i))
                        (completion_order (length models_to_optimize) order))"
  have s: "searched (snd (optimize_hyperparameters srch order st)) = searched st @ ?new"
    by (simp add: optimize_hyperparameters_searched executor_map_alt run_tasks_searched)
  have "obj \<notin> set (new_searches st task)" if "task \<in> set models_to_optimize" for task
  proof (cases "task = (name, obj)")
    case True
    then show ?thesis
      using assms(2) by (simp add: new_searches_def)
  next
    case False
    then have "snd task \<noteq> obj"
      using that assms(1) models_distinct_objectives [of "fst task" obj name]
      by (cases task) auto
    then show ?thesis
      by (simp add: new_searches_def)
  qed
  then have "obj \<notin> set ?new"
    by (auto simp: completion_order_set)
  then show "\<exists>new. searched (snd (optimize_hyperparameters srch order st)) = searched st @ new \<and>
            obj \<notin> set new"
    using s by blast
  show "snd (optimize_model srch (name, obj) st) = st"
    using assms(2) by (simp add: optimize_model_def create_study_def)
  fix tup
  assume "fst (optimize_hyperparameters srch order st) = Inr tup"
  then have "tup = merged_tuple srch st"
    by (simp add: returned_tasks_return)
  then show "entry name tup = PyDict d"
    using entry_merged_tuple [OF assms(1), of srch st] merged_cached [of "(name, obj)" st srch] assms(2)
    by simp
qed

theorem cached_model_not_searched_witness:
  "(''rf'', objective_rf) \<in> set models_to_optimize \<and>
   load_hyperparameters ''rf'' populated = PyDict [''max_depth'' \<mapsto> IntParam 12] \<and>
   fst (optimize_hyperparameters all_succeed [1, 0] populated) =
     Inr (tuned 11, tuned 12, tuned 13, tuned 14) \<and>
   entry ''rf'' (tuned 11, tuned 12, tuned 13, tuned 14) = PyDict [''max_depth'' \<mapsto> IntParam 12] \<and>
   (\<exists>new. searched (snd (optimize_hyperparameters all_succeed [1, 0] populated)) =
            searched populated @ new \<and> objective_rf \<notin> set new) \<and>
   snd (optimize_model all_succeed (''rf'', objective_rf) populated) = populated"
proof -
  have h1: "(''rf'', objective_rf) \<in> set models_to_optimize"
    by (simp add: models_to_optimize_def)
  have h2: "load_hyperparameters ''rf'' populated = PyDict [''max_depth'' \<mapsto> IntParam 12]"
    by (simp add: load_hyperparameters_def populated_def tuned_def)
  have r: "fst (optimize_hyperparameters all_succeed [1, 0] populated) =
             Inr (tuned 11, tuned 12, tuned 13, tuned 14)"
    by (simp add: optimize_hyperparameters_result eval_defs)
  note t = cached_model_not_searched [OF h1 h2, of all_succeed "[1, 0]"]
  have e: "entry ''rf'' (tuned 11, tuned 12, tuned 13, tuned 14) =
             PyDict [''max_depth'' \<mapsto> IntParam 12]"
    using t r by blast
  have s: "\<exists>new. searched (snd (optimize_hyperparameters all_succeed [1, 0] populated)) =
            searched populated @ new \<and> objective_rf \<notin> set new"
    using t by blast
  have u: "snd (optimize_model all_succeed (''rf'', objective_rf) populated) = populated"
    using t by blast
  show ?thesis
    using h1 h2 r e s u by blast
qed

text \<open>
  C7. When the store holds a dict for each of the four models, two successive calls of
  \<open>optimize_hyperparameters\<close> (whatever the searches would do and whatever the
  completion orders) return the same tuple, the tuple of the stored records, and neither
  call hands an objective to a study: the trace of searches is after each call what it
  was before the first.
\<close>

theorem populated_store_idempotent:
  assumes "\<forall>task \<in> set models_to_optimize. isinstance_dict (load_hyperparameters (fst task) st)"
  shows "fst (optimize_hyperparameters srch order st) = Inr (stored_tuple st) \<and>
         fst (optimize_hyperparameters srch' order' (snd (optimize_hyperparameters srch order st))) =
           fst (optimize_hyperparameters srch order st) \<and>
         searched (snd (optimize_hyperparameters srch order st)) = searched st \<and>
         searched (snd (optimize_hyperparameters srch' order'
                          (snd (optimize_hyperparameters srch order st)))) = searched st"
proof -
  let ?st1 = "snd (optimize_hyperparameters srch order st)"
  have a: "all_stored st"
    using assms by (simp add: all_stored_def list_all_iff)
  have a1: "all_stored ?st1"
    using a by (simp add: all_stored_def all_stored_call(3) [OF a])
  have t1: "stored_tuple ?st1 = stored_tuple st"
    by (simp add: stored_tuple_def all_stored_call(3) [OF a])
  show ?thesis
    by (simp add: all_stored_call(1,2) [OF a] all_stored_call(1,2) [OF a1] t1)
qed

theorem populated_store_idempotent_witness:
  "isinstance_dict (load_hyperparameters ''xgb'' populated) \<and>
   isinstance_dict (load_hyperparameters ''rf'' populated) \<and>
   isinstance_dict (load_hyperparameters ''stacking'' populated) \<and>
   isinstance_dict (load_hyperparameters ''reg_stacking'' populated) \<and>
   fst (optimize_hyperparameters all_succeed [0, 1] populated) =
     Inr (tuned 11, tuned 12, tuned 13, tuned 14) \<and>
   fst (optimize_hyperparameters xgb_times_out [3]
          (snd (optimize_hyperparameters all_succeed [0, 1] populated))) =
     Inr (tuned 11, tuned 12, tuned 13, tuned 14) \<and>
   searched (snd (optimize_hyperparameters xgb_times_out [3]
                    (snd (optimize_hyperparameters all_succeed [0, 1] populated)))) = []"
proof -
  have h: "\<forall>task \<in> set models_to_optimize. isinstance_dict (load_hyperparameters (fst task) populated)"
    by (simp add: models_to_optimize_def load_hyperparameters_def populated_def tuned_def)
  have s: "stored_tuple populated = (tuned 11, tuned 12, tuned 13, tuned 14)"
    by (simp add: stored_tuple_def load_hyperparameters_def populated_def)
  have e: "searched populated = []"
    by (simp add: populated_def)
  show ?thesis
    using populated_store_idempotent [OF h, of all_succeed "[0, 1]" xgb_times_out "[3]"] h
    by (simp add: s e models_to_optimize_def)
qed

text \<open>
  C6. Take a call in which every search ends in one of the outcomes of a task (it
  returns, it raises \<open>TimeoutError\<close>, or it raises another exception of class
  \<open>Exception\<close>). The call raises to its caller exactly when the merged value (search
  result or store fallback) of some model is not a dict, for instance a string from a
  corrupted store, and what it raises is then the structural error \<open>ValueError\<close>
  ("Invalid parameters for ...") of such a model: nothing else about a model aborts the
  call, and no corrupted tuple is returned.
\<close>

theorem non_mapping_raises_structural_error:
  assumes "\<forall>task \<in> set models_to_optimize. handled_outcome (srch (snd task))"
  shows "((\<exists>task \<in> set models_to_optimize. \<not> isinstance_dict (merged srch st task)) \<longleftrightarrow>
          (\<exists>exc. fst (optimize_hyperparameters srch order st) = Inl exc)) \<and>
         (\<forall>exc. fst (optimize_hyperparameters srch order st) = Inl exc \<longrightarrow>
            (\<exists>task \<in> set models_to_optimize.
               \<not> isinstance_dict (merged srch st task) \<and> exc = invalid_parameters (fst task)))"
proof (cases "first_invalid srch st")
  case None
  then have "fst (optimize_hyperparameters srch order st) = Inr (merged_tuple srch st)"
    by (simp add: optimize_hyperparameters_returned [OF handled_tasks_return [OF assms]])
  then show ?thesis
    using None by (simp add: first_invalid_None_iff)
next
  case (Some bad)
  then have "fst (optimize_hyperparameters srch order st) = Inl (invalid_parameters (fst bad))"
    by (simp add: optimize_hyperparameters_returned [OF handled_tasks_return [OF assms]])
  then show ?thesis
    using first_invalid_Some [OF Some] by auto
qed

theorem non_mapping_raises_structural_error_witness:
  "handled_outcome (all_succeed objective_xgb) \<and>
   handled_outcome (all_succeed objective_rf) \<and>
   handled_outcome (all_succeed objective_stacking) \<and>
   handled_outcome (all_succeed objective_reg_stacking) \<and>
   merged all_succeed corrupted (''xgb'', objective_xgb) = PyStr ''max_depth=6'' \<and>
   fst (optimize_hyperparameters all_succeed [2] corrupted) =
     Inl (ValueError ''Invalid parameters for xgb.'') \<and>
   (\<exists>task. task \<in> set models_to_optimize \<and>
      \<not> isinstance_dict (merged all_succeed corrupted task) \<and>
      ValueError ''Invalid parameters for xgb.'' = invalid_parameters (fst task))"
proof -
  have h: "\<forall>task \<in> set models_to_optimize. handled_outcome (all_succeed (snd task))"
    by (simp add: models_to_optimize_def all_succeed_def)
  have hs: "handled_outcome (all_succeed objective_xgb) \<and>
   handled_outcome (all_succeed objective_rf) \<and>
   handled_outcome (all_succeed objective_stacking) \<and>
   handled_outcome (all_succeed objective_reg_stacking)"
    by (simp add: all_succeed_def)
  have m: "merged all_succeed corrupted (''xgb'', objective_xgb) = PyStr ''max_depth=6''"
    by (simp add: eval_defs)
  have r: "fst (optimize_hyperparameters all_succeed [2] corrupted) =
             Inl (ValueError ''Invalid parameters for xgb.'')"
    by (simp add: optimize_hyperparameters_result eval_defs invalid_parameters_def)
  have e: "\<exists>task. task \<in> set models_to_optimize \<and>
      \<not> isinstance_dict (merged all_succeed corrupted task) \<and>
      ValueError ''Invalid parameters for xgb.'' = invalid_parameters (fst task)"
    using non_mapping_raises_structural_error [OF h, of corrupted "[2]"] r
    unfolding Bex_def by blast
  show ?thesis
    using hs m r e by blast
qed

text \<open>
  C4. A call of \<open>optimize_model\<close> on a model without a cached record hands the
  objective to a study and then: if the search completes and the study has a best trial,
  it returns the pair of the model name and the parameters of that trial; if the search
  raises \<open>TimeoutError\<close>, it logs the timeout and returns the name with \<open>None\<close>; if the
  search raises any other exception (an instance of \<open>Exception\<close>, the class the handler
  names), it logs the exception and returns the name with \<open>None\<close>. No exception of class
  \<open>Exception\<close> escapes \<open>optimize_model\<close>.
\<close>

theorem optimize_model_outcomes:
  assumes "is_None (load_hyperparameters name st)"
  shows "(\<forall>t. outcome (srch obj) = Finished \<and> best (srch obj) = Some t \<longrightarrow>
            optimize_model srch (name, obj) st =
              (Inr (name, params t), st\<lparr>searched := searched st @ [obj]\<rparr>)) \<and>
         (\<forall>exc. outcome (srch obj) = Raised exc \<and> isinstance_TimeoutError exc \<longrightarrow>
            optimize_model srch (name, obj) st =
              (Inr (name, PyNone),
               logging (Error_timed_out name) (st\<lparr>searched := searched st @ [obj]\<rparr>))) \<and>
         (\<forall>exc. outcome (srch obj) = Raised exc \<and> \<not> isinstance_TimeoutError exc \<and>
                isinstance_Exception exc \<longrightarrow>
            optimize_model srch (name, obj) st =
              (Inr (name, PyNone),
               logging (Error_generated_exception name exc)
                 (st\<lparr>searched := searched st @ [obj]\<rparr>))) \<and>
         (\<forall>exc. fst (optimize_model srch (name, obj) st) = Inl exc \<longrightarrow>
            \<not> isinstance_Exception exc)"
proof (intro conjI allI impI)
  fix t
  assume "outcome (srch obj) = Finished \<and> best (srch obj) = Some t"
  then show "optimize_model srch (name, obj) st =
              (Inr (name, params t), st\<lparr>searched := searched st @ [obj]\<rparr>)"
    using assms
    by (simp add: optimize_model_def create_study_def best_params_def best_trial_def)
next
  fix exc
  assume "outcome (srch obj) = Raised exc \<and> isinstance_TimeoutError exc"
  then show "optimize_model srch (name, obj) st =
              (Inr (name, PyNone),
               logging (Error_timed_out name) (st\<lparr>searched := searched st @ [obj]\<rparr>))"
    using assms
    by (simp add: optimize_model_def create_study_def except_handlers_def)
next
  fix exc
  assume "outcome (srch obj) = Raised exc \<and> \<not> isinstance_TimeoutError exc \<and>
                isinstance_Exception exc"
  then show "optimize_model srch (name, obj) st =
              (Inr (name, PyNone),
               logging (Error_generated_exception name exc)
                 (st\<lparr>searched := searched st @ [obj]\<rparr>))"
    using assms
    by (simp add: optimize_model_def create_study_def except_handlers_def)
next
  fix exc
  assume "fst (optimize_model srch (name, obj) st) = Inl exc"
  then show "\<not> isinstance_Exception exc"
    by (auto simp: optimize_model_result task_returns_def handled_outcome_def
        split: if_splits search_outcome.splits)
qed

theorem optimize_model_outcomes_witness:
  "is_None (load_hyperparameters ''xgb'' no_records) \<and>
   optimize_model all_succeed (''xgb'', objective_xgb) no_records =
     (Inr (''xgb'', tuned 1), no_records\<lparr>searched := [objective_xgb]\<rparr>) \<and>
   optimize_model xgb_times_out (''xgb'', objective_xgb) no_records =
     (Inr (''xgb'', PyNone),
      no_records\<lparr>searched := [objective_xgb], log := [Error_timed_out ''xgb'']\<rparr>) \<and>
   optimize_model (all_succeed(objective_xgb := failed)) (''xgb'', objective_xgb) no_records =
     (Inr (''xgb'', PyNone),
      no_records\<lparr>searched := [objective_xgb],
        log := [Error_generated_exception ''xgb'' (RuntimeError ''fit did not converge'')]\<rparr>)"
proof -
  have h: "is_None (load_hyperparameters ''xgb'' no_records)"
    by (simp add: load_hyperparameters_def no_records_def)
  have a: "optimize_model all_succeed (''xgb'', objective_xgb) no_records =
     (Inr (''xgb'', tuned 1), no_records\<lparr>searched := [objective_xgb]\<rparr>)"
    using optimize_model_outcomes [OF h, of all_succeed objective_xgb]
    by (simp add: all_succeed_def finds_def no_records_def)
  have b: "optimize_model xgb_times_out (''xgb'', objective_xgb) no_records =
     (Inr (''xgb'', PyNone),
      no_records\<lparr>searched := [objective_xgb], log := [Error_timed_out ''xgb'']\<rparr>)"
    using optimize_model_outcomes [OF h, of xgb_times_out objective_xgb]
    by (simp add: xgb_times_out_def timed_out_def no_records_def logging_def)
  have c: "optimize_model (all_succeed(objective_xgb := failed)) (''xgb'', objective_xgb) no_records =
     (Inr (''xgb'', PyNone),
      no_records\<lparr>searched := [objective_xgb],
        log := [Error_generated_exception ''xgb'' (RuntimeError ''fit did not converge'')]\<rparr>)"
    using optimize_model_outcomes [OF h, of "all_succeed(objective_xgb := failed)" objective_xgb]
    by (simp add: failed_def no_records_def logging_def)
  show ?thesis
    using h a b c by blast
qed



text \<open>
  C5. A task result that is a non-null dict is accepted and persisted: the merge loop,
  on such a result, puts the dict under the model name and calls
  \<open>save_hyperparameters\<close> with it before it goes on; when the call returns, the entry
  of the tuple for that model is the dict and the store holds it under the model name.
  In particular, from an empty store with four searches that each find a dict, the call
  returns, the store then has exactly the four records, and each record is the entry of
  the returned tuple for its model.
\<close>

theorem dict_result_accepted_and_persisted:
  "(\<forall>name bp results ps st0. isinstance_dict bp \<longrightarrow>
      merge_results ((name, bp) # results) ps st0 =
        merge_results results (ps(name \<mapsto> bp)) (save_hyperparameters bp name st0)) \<and>
   (\<forall>tup task d.
      fst (optimize_hyperparameters srch order st) = Inr tup \<and>
      task \<in> set models_to_optimize \<and>
      fst (optimize_model srch task st) = Inr (fst task, PyDict d) \<longrightarrow>
        entry (fst task) tup = PyDict d \<and>
        store (snd (optimize_hyperparameters srch order st)) (fst task) = Some (PyDict d)) \<and>
   (store st = Map.empty \<and>
    (\<forall>task \<in> set models_to_optimize.
       outcome (srch (snd task)) = Finished \<and>
       (\<exists>t. best (srch (snd task)) = Some t \<and> isinstance_dict (params t))) \<longrightarrow>
      (\<exists>tup. fst (optimize_hyperparameters srch order st) = Inr tup \<and>
         dom (store (snd (optimize_hyperparameters srch order st))) = fst ` set models_to_optimize \<and>
         (\<forall>task \<in> set models_to_optimize.
            store (snd (optimize_hyperparameters srch order st)) (fst task) =
              Some (entry (fst task) tup))))"
proof (intro conjI allI impI)
  fix name bp results ps st0
  assume "isinstance_dict bp"
  then show "merge_results ((name, bp) # results) ps st0 =
        merge_results results (ps(name \<mapsto> bp)) (save_hyperparameters bp name st0)"
    by (simp add: merge_results_Cons merged_value_def dict_not_None)
next
  fix tup task d
  assume a: "fst (optimize_hyperparameters srch order st) = Inr tup \<and>
      task \<in> set models_to_optimize \<and>
      fst (optimize_model srch task st) = Inr (fst task, PyDict d)"
  then have r: "tasks_return srch st" "first_invalid srch st = None" "tup = merged_tuple srch st"
    using returned_tasks_return [of srch order st tup] by simp_all
  have m: "model_result srch st task = PyDict d"
    using a task_result_Inr [of srch task st "(fst task, PyDict d)"] by simp
  then have d: "isinstance_dict (model_result srch st task)" by simp
  have t: "task \<in> set models_to_optimize" using a by simp
  show "entry (fst task) tup = PyDict d"
    using entry_merged_tuple [OF t, of srch st] merged_of_dict_result [OF d]
    by (simp add: r(3) m)
  show "store (snd (optimize_hyperparameters srch order st)) (fst task) = Some (PyDict d)"
    using returned_store [OF r(1,2) t d, of order] by (simp add: m)
next
  assume a: "store st = Map.empty \<and>
    (\<forall>task \<in> set models_to_optimize.
       outcome (srch (snd task)) = Finished \<and>
       (\<exists>t. best (srch (snd task)) = Some t \<and> isinstance_dict (params t)))"
  have nl: "is_None (load_hyperparameters n st)" for n
    using a by (simp add: load_hyperparameters_def)
  have d: "isinstance_dict (model_result srch st task)" if "task \<in> set models_to_optimize" for task
    using a that nl by (auto simp: model_result_def search_params_def)
  have tr: "tasks_return srch st"
    using a by (simp add: tasks_return_def task_returns_def handled_outcome_def list_all_iff)
  have fi: "first_invalid srch st = None"
    using d by (simp add: first_invalid_None_iff merged_of_dict_result)
  have res: "fst (optimize_hyperparameters srch order st) = Inr (merged_tuple srch st)"
    by (simp add: optimize_hyperparameters_returned [OF tr] fi)
  have fl: "filter (\<lambda>r. isinstance_dict (snd r)) (returned_results srch st) = returned_results srch st"
    using d by (auto simp: filter_id_conv returned_results_def)
  have "dom (store (snd (optimize_hyperparameters srch order st))) = fst ` set (returned_results srch st)"
    using a by (simp add: optimize_hyperparameters_effects(2) [OF tr fi] fl dom_map_of_conv_image_fst)
  then have dm: "dom (store (snd (optimize_hyperparameters srch order st))) = fst ` set models_to_optimize"
    by (simp add: returned_results_def image_image)
  have en: "store (snd (optimize_hyperparameters srch order st)) (fst task) =
              Some (entry (fst task) (merged_tuple srch st))"
    if "task \<in> set models_to_optimize" for task
    using returned_store [OF tr fi that d [OF that], of order] entry_merged_tuple [OF that, of srch st]
      merged_of_dict_result [OF d [OF that]]
    by simp
  show "\<exists>tup. fst (optimize_hyperparameters srch order st) = Inr tup \<and>
         dom (store (snd (optimize_hyperparameters srch order st))) = fst ` set models_to_optimize \<and>
         (\<forall>task \<in> set models_to_optimize.
            store (snd (optimize_hyperparameters srch order st)) (fst task) =
              Some (entry (fst task) tup))"
    using res dm en by blast
qed

theorem dict_result_accepted_and_persisted_witness:
  "store no_records = Map.empty \<and>
   fst (optimize_hyperparameters all_succeed [1, 3] no_records) =
     Inr (tuned 1, tuned 2, tuned 3, tuned 4) \<and>
   dom (store (snd (optimize_hyperparameters all_succeed [1, 3] no_records))) =
     {''xgb'', ''rf'', ''stacking'', ''reg_stacking''} \<and>
   store (snd (optimize_hyperparameters all_succeed [1, 3] no_records)) ''xgb'' = Some (tuned 1) \<and>
   store (snd (optimize_hyperparameters all_succeed [1, 3] no_records)) ''rf'' = Some (tuned 2) \<and>
   store (snd (optimize_hyperparameters all_succeed [1, 3] no_records)) ''stacking'' = Some (tuned 3) \<and>
   store (snd (optimize_hyperparameters all_succeed [1, 3] no_records)) ''reg_stacking'' =
     Some (tuned 4)"
proof -
  let ?st' = "snd (optimize_hyperparameters all_succeed [1, 3] no_records)"
  have h: "store no_records = Map.empty \<and>
    (\<forall>task \<in> set models_to_optimize.
       outcome (all_succeed (snd task)) = Finished \<and>
       (\<exists>t. best (all_succeed (snd task)) = Some t \<and> isinstance_dict (params t)))"
    by (simp add: no_records_def models_to_optimize_def all_succeed_def finds_def tuned_def)
  have r: "fst (optimize_hyperparameters all_succeed [1, 3] no_records) =
             Inr (tuned 1, tuned 2, tuned 3, tuned 4)"
    by (simp add: optimize_hyperparameters_result eval_defs)
  note c = dict_result_accepted_and_persisted [of all_succeed "[1, 3]" no_records,
      THEN conjunct2, THEN conjunct2, THEN mp, OF h]
  from c obtain tup where t: "fst (optimize_hyperparameters all_succeed [1, 3] no_records) = Inr tup"
    and d: "dom (store ?st') = fst ` set models_to_optimize"
    and e: "\<forall>task \<in> set models_to_optimize. store ?st' (fst task) = Some (entry (fst task) tup)"
    by (elim exE conjE)
  have tup: "tup = (tuned 1, tuned 2, tuned 3, tuned 4)"
    using t r by simp
  have d': "dom (store ?st') = {''xgb'', ''rf'', ''stacking'', ''reg_stacking''}"
    using d by (simp add: models_to_optimize_def)
  have e': "store ?st' ''xgb'' = Some (tuned 1)" "store ?st' ''rf'' = Some (tuned 2)"
    "store ?st' ''stacking'' = Some (tuned 3)" "store ?st' ''reg_stacking'' = Some (tuned 4)"
    using e by (simp_all add: tup models_to_optimize_def entry_def)
  have s: "store no_records = Map.empty"
    using h by (rule conjunct1)
  show ?thesis
    by (intro conjI) (rule s r d' e')+
qed

text \<open>
  C10. The write-back on the cache-hit path. When the store holds a dict for a model,
  \<open>optimize_model\<close> returns that dict without a search (the state is untouched); the
  merge loop, on any dict result, calls \<open>save_hyperparameters\<close> with it, whether the dict
  comes from a search or was merely loaded; in a returning call every model with a dict
  result has been saved with that dict during the call; and on a pure cache-skip call
  (a stored dict for each of the four models) the four stored records are saved again,
  in submission order, while nothing is searched.
\<close>

theorem dict_results_written_back:
  "(\<forall>name obj d. load_hyperparameters name st = PyDict d \<longrightarrow>
      optimize_model srch (name, obj) st = (Inr (name, PyDict d), st)) \<and>
   (\<forall>name bp results ps st0. isinstance_dict bp \<longrightarrow>
      (\<exists>more. saves (snd (merge_results ((name, bp) # results) ps st0)) =
                saves st0 @ (name, bp) # more)) \<and>
   (\<forall>tup task d.
      fst (optimize_hyperparameters srch order st) = Inr tup \<and>
      task \<in> set models_to_optimize \<and>
      fst (optimize_model srch task st) = Inr (fst task, PyDict d) \<longrightarrow>
        (\<exists>new. saves (snd (optimize_hyperparameters srch order st)) = saves st @ new \<and>
               (fst task, PyDict d) \<in> set new)) \<and>
   ((\<forall>task \<in> set models_to_optimize. isinstance_dict (load_hyperparameters (fst task) st)) \<longrightarrow>
      saves (snd (optimize_hyperparameters srch order st)) =
        saves st @
        [(''xgb'', load_hyperparameters ''xgb'' st), (''rf'', load_hyperparameters ''rf'' st),
         (''stacking'', load_hyperparameters ''stacking'' st),
         (''reg_stacking'', load_hyperparameters ''reg_stacking'' st)] \<and>
      searched (snd (optimize_hyperparameters srch order st)) = searched st)"
proof (intro conjI allI impI)
  fix name obj d
  assume "load_hyperparameters name st = PyDict d"
  then show "optimize_model srch (name, obj) st = (Inr (name, PyDict d), st)"
    by (simp add: optimize_model_def create_study_def)
next
  fix name bp results ps st0
  assume d: "isinstance_dict bp"
  obtain more where
    "saves (snd (merge_results results (ps(name \<mapsto> bp)) (save_hyperparameters bp name st0))) =
       saves (save_hyperparameters bp name st0) @ more"
    using merge_results_saves_prefix by blast
  then show "\<exists>more. saves (snd (merge_results ((name, bp) # results) ps st0)) =
                saves st0 @ (name, bp) # more"
    using d by (simp add: merge_results_Cons merged_value_def dict_not_None save_hyperparameters_def)
next
  fix tup task d
  assume a: "fst (optimize_hyperparameters srch order st) = Inr tup \<and>
      task \<in> set models_to_optimize \<and>
      fst (optimize_model srch task st) = Inr (fst task, PyDict d)"
  then have r: "tasks_return srch st" "first_invalid srch st = None"
    using returned_tasks_return [of srch order st tup] by simp_all
  have m: "model_result srch st task = PyDict d"
    using a task_result_Inr [of srch task st "(fst task, PyDict d)"] by simp
  have "(fst task, PyDict d) \<in> set (filter (\<lambda>r. isinstance_dict (snd r)) (returned_results srch st))"
    using a m by (auto simp: returned_results_def)
  then show "\<exists>new. saves (snd (optimize_hyperparameters srch order st)) = saves st @ new \<and>
               (fst task, PyDict d) \<in> set new"
    using optimize_hyperparameters_effects(1) [OF r, of order] by blast
next
  assume "\<forall>task \<in> set models_to_optimize. isinstance_dict (load_hyperparameters (fst task) st)"
  then have a: "all_stored st"
    by (simp add: all_stored_def list_all_iff)
  show "saves (snd (optimize_hyperparameters srch order st)) =
        saves st @
        [(''xgb'', load_hyperparameters ''xgb'' st), (''rf'', load_hyperparameters ''rf'' st),
         (''stacking'', load_hyperparameters ''stacking'' st),
         (''reg_stacking'', load_hyperparameters ''reg_stacking'' st)]"
    by (simp add: all_stored_call(4) [OF a] models_to_optimize_def)
  show "searched (snd (optimize_hyperparameters srch order st)) = searched st"
    by (rule all_stored_call(2) [OF a])
qed

theorem dict_results_written_back_witness:
  "isinstance_dict (load_hyperparameters ''xgb'' populated) \<and>
   isinstance_dict (load_hyperparameters ''rf'' populated) \<and>
   isinstance_dict (load_hyperparameters ''stacking'' populated) \<and>
   isinstance_dict (load_hyperparameters ''reg_stacking'' populated) \<and>
   saves (snd (optimize_hyperparameters all_succeed [2, 3] populated)) =
     [(''xgb'', tuned 11), (''rf'', tuned 12), (''stacking'', tuned 13),
      (''reg_stacking'', tuned 14)] \<and>
   searched (snd (optimize_hyperparameters all_succeed [2, 3] populated)) = []"
proof -
  have h: "\<forall>task \<in> set models_to_optimize. isinstance_dict (load_hyperparameters (fst task) populated)"
    by (simp add: models_to_optimize_def load_hyperparameters_def populated_def tuned_def)
  note c = dict_results_written_back [of populated all_succeed "[2, 3]",
      THEN conjunct2, THEN conjunct2, THEN conjunct2, THEN mp, OF h]
  have l: "load_hyperparameters ''xgb'' populated = tuned 11"
    "load_hyperparameters ''rf'' populated = tuned 12"
    "load_hyperparameters ''stacking'' populated = tuned 13"
    "load_hyperparameters ''reg_stacking'' populated = tuned 14"
    by (simp_all add: load_hyperparameters_def populated_def)
  have e: "saves populated = []" "searched populated = []"
    by (simp_all add: populated_def)
  have d: "isinstance_dict (tuned k)" for k
    by (simp add: tuned_def)
  show ?thesis
    using c by (simp add: l e d)
qed

text \<open>
  C2. The claim is that a model whose search times out, with no record in the store,
  ends with the empty mapping and a logged warning, as the second loop of
  \<open>optimize_hyperparameters\<close> ("Ensure all parameters are loaded") sets out to do. The
  code does not get there: the merge loop puts the fallback \<open>None\<close> under the model name
  and its own type check then raises \<open>ValueError\<close>. With an empty store and the search of
  \<open>xgb\<close> timing out (the other three succeed), whatever the completion order, the task
  returns \<open>(xgb, None)\<close>, the store has nothing for \<open>xgb\<close>, the call raises
  "Invalid parameters for xgb." and no warning for \<open>xgb\<close> is logged.
\<close>

theorem timeout_without_record_raises:
  "fst (optimize_model xgb_times_out (''xgb'', objective_xgb) no_records) = Inr (''xgb'', PyNone) \<and>
   load_hyperparameters ''xgb'' no_records = PyNone \<and>
   fst (optimize_hyperparameters xgb_times_out order no_records) =
     Inl (ValueError ''Invalid parameters for xgb.'') \<and>
   Warning_no_parameters ''xgb'' \<notin>
     set (log (snd (optimize_hyperparameters xgb_times_out order no_records)))"
proof (intro conjI)
  show "fst (optimize_model xgb_times_out (''xgb'', objective_xgb) no_records) = Inr (''xgb'', PyNone)"
    by (simp add: eval_defs)
  show "load_hyperparameters ''xgb'' no_records = PyNone"
    by (simp add: eval_defs)
  show "fst (optimize_hyperparameters xgb_times_out order no_records) =
     Inl (ValueError ''Invalid parameters for xgb.'')"
    by (simp add: optimize_hyperparameters_result eval_defs invalid_parameters_def)
  have tr: "tasks_return xgb_times_out no_records"
    by (simp add: tasks_return_def eval_defs)
  have fi: "first_invalid xgb_times_out no_records = Some (''xgb'', objective_xgb)"
    by (simp add: eval_defs)
  have "Warning_no_parameters ''xgb'' \<notin> set (log no_records)"
    by (simp add: no_records_def)
  then show "Warning_no_parameters ''xgb'' \<notin>
     set (log (snd (optimize_hyperparameters xgb_times_out order no_records)))"
    unfolding optimize_hyperparameters_invalid_log [OF tr fi]
    using executor_map_no_warning by blast
qed

end
